theory Spec2Isabelle
  imports Main
begin

section \<open>Python values the program works with\<close>

text \<open>
  Exceptions are values. Only the classes that the modelled code raises, catches or lets
  through are distinguished; \<open>OtherError\<close> stands for any other subclass of
  \<open>Exception\<close> raised by an external collaborator.
\<close>

datatype exn = ValueError | TypeError | OverflowError | IndexError | OtherError string

text \<open>
  A \<open>datetime\<close> is represented by the number of microseconds between
  0001-01-01T00:00:00 and its wall-clock fields, and by its \<open>tzinfo\<close>: \<open>None\<close> for a
  naive value, \<open>Some off\<close> for an aware value whose UTC offset is \<open>off\<close> microseconds.
  The largest wall-clock value is 9999-12-31T23:59:59.999999.
\<close>

record datetime =
  wall :: int
  tzinfo :: "int option"

definition MAX_WALL :: int where
  "MAX_WALL = 315537897599999999"

text \<open>\<open>dt.replace(tzinfo=tz)\<close>: the wall-clock fields stay, the zone is swapped.\<close>

definition replace_tzinfo :: "datetime \<Rightarrow> int option \<Rightarrow> datetime" where
  "replace_tzinfo dt tz = dt\<lparr>tzinfo := tz\<rparr>"

text \<open>
  \<open>dt.astimezone(timezone.utc)\<close> for an aware \<open>dt\<close> with offset \<open>off\<close>: the offset is
  subtracted, and a result outside the representable range raises \<open>OverflowError\<close>.
\<close>

definition astimezone_utc :: "datetime \<Rightarrow> int \<Rightarrow> exn + datetime" where
  "astimezone_utc dt off =
     (let u = wall dt - off
      in if 0 \<le> u \<and> u \<le> MAX_WALL then Inr \<lparr>wall = u, tzinfo = Some 0\<rparr>
         else Inl OverflowError)"

text \<open>
  \<open>a > b\<close> on datetimes: two naive values compare by their fields, two aware values by
  their UTC instants, and a naive value against an aware one raises \<open>TypeError\<close>.
\<close>

definition datetime_gt :: "datetime \<Rightarrow> datetime \<Rightarrow> exn + bool" where
  "datetime_gt a b =
     (case (tzinfo a, tzinfo b) of
        (None, None) \<Rightarrow> Inr (wall b < wall a)
      | (Some x, Some y) \<Rightarrow> Inr (wall b - y < wall a - x)
      | _ \<Rightarrow> Inl TypeError)"

text \<open>
  The functions of the standard library that the code calls on strings are parameters of
  the model: for a string argument \<open>datetime.strptime\<close> and \<open>datetime.fromisoformat\<close>
  either return a datetime or raise \<open>ValueError\<close>, which is the result \<open>None\<close> here;
  \<open>isoformat\<close> is \<open>datetime.isoformat\<close>; \<open>strip\<close> is \<open>str.strip()\<close>, which removes
  leading and trailing Unicode whitespace.
\<close>

record stdlib =
  strptime :: "string \<Rightarrow> string \<Rightarrow> datetime option"
  fromisoformat :: "string \<Rightarrow> datetime option"
  isoformat :: "datetime \<Rightarrow> string"
  strip :: "string \<Rightarrow> string"

text \<open>\<open>s.replace("Z", "+00:00")\<close>.\<close>

definition replace_Z :: "string \<Rightarrow> string" where
  "replace_Z s = concat (map (\<lambda>c. if c = CHR ''Z'' then ''+00:00'' else [c]) s)"

text \<open>A dictionary with string keys and string values, and \<open>d.get(k, default)\<close>.\<close>

type_synonym article = "string \<rightharpoonup> string"

definition dict_get :: "(string \<rightharpoonup> string) \<Rightarrow> string \<Rightarrow> string \<Rightarrow> string" where
  "dict_get d k dflt = (case d k of None \<Rightarrow> dflt | Some v \<Rightarrow> v)"

text \<open>
  \<open>collections.deque(maxlen=n)\<close>: \<open>maxlen = None\<close> is unbounded; an integer is
  converted to \<open>Py_ssize_t\<close> (64 bits), which raises \<open>OverflowError\<close> outside its range,
  and a negative \<open>maxlen\<close> raises \<open>ValueError\<close>. \<open>append\<close> adds on the right and,
  when the bound is exceeded, discards one element from the left.
\<close>

definition PY_SSIZE_T_MAX :: int where
  "PY_SSIZE_T_MAX = 9223372036854775807"

record deque =
  elems :: "string list"
  maxlen :: "nat option"

definition deque_new :: "int option \<Rightarrow> exn + deque" where
  "deque_new n =
     (case n of
        None \<Rightarrow> Inr \<lparr>elems = [], maxlen = None\<rparr>
      | Some k \<Rightarrow> if k < - PY_SSIZE_T_MAX - 1 \<or> PY_SSIZE_T_MAX < k then Inl OverflowError
                  else if k < 0 then Inl ValueError
                  else Inr \<lparr>elems = [], maxlen = Some (nat k)\<rparr>)"

definition deque_append :: "deque \<Rightarrow> string \<Rightarrow> deque" where
  "deque_append q x =
     (let xs = elems q @ [x]
      in case maxlen q of
           None \<Rightarrow> q\<lparr>elems := xs\<rparr>
         | Some m \<Rightarrow> if m < length xs then q\<lparr>elems := tl xs\<rparr> else q\<lparr>elems := xs\<rparr>)"

section \<open>yomu/utils.py\<close>

definition COMMON_DATE_FORMATS :: "string list" where
  "COMMON_DATE_FORMATS =
     [''%a, %d %b %Y %H:%M:%S %Z'',
      ''%a, %d %b %Y %H:%M:%S %z'',
      ''%Y-%m-%dT%H:%M:%SZ'',
      ''%Y-%m-%dT%H:%M:%S%z'',
      ''%Y-%m-%d %H:%M:%S'']"

text \<open>The \<open>for fmt in COMMON_DATE_FORMATS\<close> loop: the first format that parses wins.\<close>

fun try_formats :: "stdlib \<Rightarrow> string \<Rightarrow> string list \<Rightarrow> datetime option" where
  "try_formats L date_str [] = None"
| "try_formats L date_str (fmt # fmts) =
     (case strptime L date_str fmt of
        Some d \<Rightarrow> Some d
      | None \<Rightarrow> try_formats L date_str fmts)"

definition parse_date_string :: "stdlib \<Rightarrow> string \<Rightarrow> datetime option" where
  "parse_date_string L date_str =
     (case try_formats L date_str COMMON_DATE_FORMATS of
        Some d \<Rightarrow> Some d
      | None \<Rightarrow> fromisoformat L (replace_Z date_str))"

definition parse_iso_timestamp :: "stdlib \<Rightarrow> string option \<Rightarrow> datetime option" where
  "parse_iso_timestamp L timestamp_str =
     (case timestamp_str of
        None \<Rightarrow> None
      | Some s \<Rightarrow>
          if s = [] then None
          else (case fromisoformat L s of
                  None \<Rightarrow> None
                | Some d \<Rightarrow> Some (replace_tzinfo d (Some 0))))"

definition parse_date :: "stdlib \<Rightarrow> string option \<Rightarrow> datetime option" where
  "parse_date L date_str =
     (case date_str of
        None \<Rightarrow> None
      | Some s \<Rightarrow>
          if s = [] \<or> strip L s = [] then None
          else parse_date_string L (strip L s))"

definition normalize_datetime_to_utc_naive :: "datetime \<Rightarrow> exn + datetime" where
  "normalize_datetime_to_utc_naive dt =
     (case tzinfo dt of
        Some off \<Rightarrow>
          (case astimezone_utc dt off of
             Inl e \<Rightarrow> Inl e
           | Inr u \<Rightarrow> Inr (replace_tzinfo u None))
      | None \<Rightarrow> Inr dt)"

section \<open>yomu/content/processor.py\<close>

text \<open>
  The filter reads and writes one attribute of the processor, the deque
  \<open>non_dated_processed_urls\<close>; it is passed in and returned. Both places that add to it
  run the same statement, \<open>if article_url and article_url not in deque: deque.append\<close>.
\<close>

definition append_if_new :: "deque \<Rightarrow> string \<Rightarrow> deque" where
  "append_if_new q article_url =
     (if article_url \<noteq> [] \<and> article_url \<notin> set (elems q) then deque_append q article_url
      else q)"

text \<open>
  \<open>_should_include_article\<close>. The result is the returned boolean or the exception that
  escapes, together with the deque as the call leaves it.
\<close>

definition should_include_article ::
  "stdlib \<Rightarrow> deque \<Rightarrow> article \<Rightarrow> datetime option \<Rightarrow> (exn + bool) \<times> deque" where
  "should_include_article L q article last_run_utc =
     (let article_url = dict_get article ''link'' [];
          pub_date_str = dict_get article ''pubDate'' [];
          article_date = parse_date L (Some pub_date_str)
      in case (last_run_utc, article_date) of
           (Some lr, Some d) \<Rightarrow>
             (case normalize_datetime_to_utc_naive d of
                Inl e \<Rightarrow> (Inl e, q)
              | Inr nd \<Rightarrow> (datetime_gt nd (replace_tzinfo lr None), q))
         | (_, None) \<Rightarrow> (Inr True, append_if_new q article_url)
         | (None, Some d) \<Rightarrow> (Inr True, q))"

text \<open>
  The body of the loop of \<open>_filter_articles_by_timestamp\<close>, on the pair of
  \<open>filtered_articles\<close> and the deque. (\<open>filtered_count\<close> only feeds a log line.)
\<close>

definition filter_step ::
  "stdlib \<Rightarrow> datetime option \<Rightarrow> article list \<times> deque \<Rightarrow> article \<Rightarrow> article list \<times> deque" where
  "filter_step L last_run_utc st article =
     (let filtered_articles = fst st; q = snd st;
          article_url = dict_get article ''link'' []
      in if article_url \<noteq> [] \<and> article_url \<in> set (elems q) then (filtered_articles, q)
         else (case should_include_article L q article last_run_utc of
                 (Inr True, q') \<Rightarrow> (filtered_articles @ [article], q')
               | (Inr False, q') \<Rightarrow> (filtered_articles, q')
               | (Inl e, q') \<Rightarrow> (filtered_articles @ [article], append_if_new q' article_url)))"

definition filter_articles_by_timestamp ::
  "stdlib \<Rightarrow> deque \<Rightarrow> article list \<Rightarrow> string option \<Rightarrow> article list \<times> deque" where
  "filter_articles_by_timestamp L q articles last_run_timestamp =
     foldl (filter_step L (parse_iso_timestamp L last_run_timestamp)) ([], q) articles"


text \<open>
  \<open>ContentProcessor.__init__\<close>. \<open>hiku\<close> is the outcome of constructing the external
  \<open>HikuExtractor\<close>, which happens before the deque is created.
\<close>

record 'h processor =
  hiku_extractor :: 'h
  request_timeout :: nat
  non_dated_processed_urls :: deque

definition DEFAULT_MAX_FALLBACK_URLS :: "int option" where
  "DEFAULT_MAX_FALLBACK_URLS = Some 1000"

definition ContentProcessor_init :: "exn + 'h \<Rightarrow> int option \<Rightarrow> exn + 'h processor" where
  "ContentProcessor_init hiku max_fallback_urls =
     (case hiku of
        Inl e \<Rightarrow> Inl e
      | Inr h \<Rightarrow>
          (case deque_new max_fallback_urls of
             Inl e \<Rightarrow> Inl e
           | Inr q \<Rightarrow>
               Inr \<lparr>hiku_extractor = h, request_timeout = 10, non_dated_processed_urls = q\<rparr>))"











section \<open>yomu/newsletter/service.py\<close>








section \<open>yomu/daemon/daemon.py and the frequency check of yomu/config/config.py\<close>

text \<open>
  The external \<open>croniter\<close> library is a parameter: \<open>cron_error expr\<close> is the exception its
  constructor raises for an expression it rejects, and \<open>cron_next expr t\<close> is the outcome
  of \<open>get_next\<close> for an accepted expression from the current time \<open>t\<close>: the first fire
  time after \<open>t\<close>, or the exception raised when the search finds none (an accepted
  expression may name a date that never comes, such as 30 February). The times of the
  daemon are the naive local datetimes of \<open>datetime.now()\<close>, given by their wall-clock
  microseconds. A \<open>croniter\<close> object keeps its expression and a current time, which a
  successful \<open>get_next\<close> advances.
\<close>

record croniter_lib =
  cron_error :: "string \<Rightarrow> exn option"
  cron_next :: "string \<Rightarrow> int \<Rightarrow> exn + int"

record cron =
  expr :: string
  cur :: int

definition croniter_new :: "croniter_lib \<Rightarrow> string \<Rightarrow> int \<Rightarrow> exn + cron" where
  "croniter_new C frequency start_time =
     (case cron_error C frequency of
        Some e \<Rightarrow> Inl e
      | None \<Rightarrow> Inr \<lparr>expr = frequency, cur = start_time\<rparr>)"

definition set_current :: "cron \<Rightarrow> int \<Rightarrow> cron" where
  "set_current c start_time = c\<lparr>cur := start_time\<rparr>"

definition get_next :: "croniter_lib \<Rightarrow> cron \<Rightarrow> (exn + int) \<times> cron" where
  "get_next C c =
     (case cron_next C (expr c) (cur c) of
        Inl e \<Rightarrow> (Inl e, c)
      | Inr t \<Rightarrow> (Inr t, c\<lparr>cur := t\<rparr>))"

text \<open>
  \<open>Config._validate_frequencies\<close>: \<open>ValueError\<close> and \<open>TypeError\<close> from \<open>croniter\<close> are
  re-raised as \<open>ValueError\<close>, anything else escapes as it is.
\<close>

fun validate_each :: "croniter_lib \<Rightarrow> int \<Rightarrow> string list \<Rightarrow> exn + unit" where
  "validate_each C now [] = Inr ()"
| "validate_each C now (frequency # rest) =
     (if frequency = [] then Inl ValueError
      else (case croniter_new C frequency now of
              Inl e \<Rightarrow> if e = ValueError \<or> e = TypeError then Inl ValueError else Inl e
            | Inr c \<Rightarrow> validate_each C now rest))"

definition validate_frequencies :: "croniter_lib \<Rightarrow> int \<Rightarrow> string list \<Rightarrow> exn + unit" where
  "validate_frequencies C now frequencies =
     (if frequencies = [] then Inl ValueError else validate_each C now frequencies)"

text \<open>
  \<open>NewsletterDaemon.__init__\<close>: the loop that fills \<open>self.crons\<close>; \<open>now k\<close> is the clock
  read for the schedule at position \<open>k\<close>. An exception leaves no daemon object.
\<close>

record daemon =
  frequencies :: "string list"
  crons :: "cron list"

fun init_crons :: "croniter_lib \<Rightarrow> (nat \<Rightarrow> int) \<Rightarrow> string list \<Rightarrow> cron list \<Rightarrow> exn + cron list" where
  "init_crons C now [] cs = Inr cs"
| "init_crons C now (frequency # rest) cs =
     (case croniter_new C frequency (now (length cs)) of
        Inl e \<Rightarrow> Inl e
      | Inr c \<Rightarrow> init_crons C now rest (cs @ [c]))"

definition NewsletterDaemon_init :: "croniter_lib \<Rightarrow> (nat \<Rightarrow> int) \<Rightarrow> string list \<Rightarrow> exn + daemon" where
  "NewsletterDaemon_init C now config_frequencies =
     (case init_crons C now config_frequencies [] of
        Inl e \<Rightarrow> Inl e
      | Inr cs \<Rightarrow> Inr \<lparr>frequencies = config_frequencies, crons = cs\<rparr>)"

text \<open>
  \<open>_get_next_run_time\<close>: in turn, every iterator is reset to \<open>current_time\<close> and asked
  for its next time. Nothing catches an exception of \<open>get_next\<close>: it ends the loop and
  escapes, with the iterators before it already advanced. \<open>min\<close> of an empty list raises
  \<open>ValueError\<close>.
\<close>

fun next_times :: "croniter_lib \<Rightarrow> int \<Rightarrow> cron list \<Rightarrow> (exn + int list) \<times> cron list" where
  "next_times C current_time [] = (Inr [], [])"
| "next_times C current_time (c # rest) =
     (case get_next C (set_current c current_time) of
        (Inl e, c') \<Rightarrow> (Inl e, c' # rest)
      | (Inr t, c') \<Rightarrow>
          (case next_times C current_time rest of
             (Inl e, rest') \<Rightarrow> (Inl e, c' # rest')
           | (Inr ts, rest') \<Rightarrow> (Inr (t # ts), c' # rest')))"

fun py_min :: "int list \<Rightarrow> exn + int" where
  "py_min [] = Inl ValueError"
| "py_min (x # xs) = Inr (fold min xs x)"

definition get_next_run_time :: "croniter_lib \<Rightarrow> daemon \<Rightarrow> int \<Rightarrow> (exn + int) \<times> daemon" where
  "get_next_run_time C d current_time =
     (case next_times C current_time (crons d) of
        (Inl e, cs) \<Rightarrow> (Inl e, d\<lparr>crons := cs\<rparr>)
      | (Inr ts, cs) \<Rightarrow> (py_min ts, d\<lparr>crons := cs\<rparr>))"

section \<open>Sample library values for the worked examples\<close>

text \<open>
  The values of \<open>datetime.strptime\<close>, \<open>datetime.fromisoformat\<close> and
  \<open>datetime.isoformat\<close> at the strings of the examples below: 2024-01-02 and 2023-12-31
  at midnight in the space-separated format, 0001-01-01 at midnight with offset +05:00,
  and the stored marker 2024-01-01T00:00:00. No example relies on the value at any
  other string. The strings of the examples are ASCII, where \<open>str.strip()\<close> removes
  the ASCII whitespace characters at both ends.
\<close>

definition ascii_isspace :: "char \<Rightarrow> bool" where
  "ascii_isspace c = (c \<in> set [CHR 0x09, CHR 0x0A, CHR 0x0B, CHR 0x0C, CHR 0x0D,
                                CHR 0x1C, CHR 0x1D, CHR 0x1E, CHR 0x1F, CHR 0x20])"

definition ascii_strip :: "string \<Rightarrow> string" where
  "ascii_strip s = rev (dropWhile ascii_isspace (rev (dropWhile ascii_isspace s)))"

definition sample_stdlib :: stdlib where
  "sample_stdlib =
     \<lparr>strptime = (\<lambda>s fmt.
        if fmt = ''%Y-%m-%d %H:%M:%S'' \<and> s = ''2024-01-02 00:00:00''
          then Some \<lparr>wall = 63839750400000000, tzinfo = None\<rparr>
        else if fmt = ''%Y-%m-%d %H:%M:%S'' \<and> s = ''2023-12-31 00:00:00''
          then Some \<lparr>wall = 63839577600000000, tzinfo = None\<rparr>
        else if fmt = ''%Y-%m-%dT%H:%M:%S%z'' \<and> s = ''0001-01-01T00:00:00+0500''
          then Some \<lparr>wall = 0, tzinfo = Some 18000000000\<rparr>
        else None),
      fromisoformat = (\<lambda>s.
        if s = ''2024-01-01T00:00:00''
          then Some \<lparr>wall = 63839664000000000, tzinfo = None\<rparr>
        else None),
      isoformat = (\<lambda>d.
        if wall d = 63839664000000000 then ''2024-01-01T00:00:00'' else []),
      strip = ascii_strip\<rparr>"

text \<open>
  The values of \<open>croniter\<close> at the expressions of the examples: \<open>not a cron\<close> is
  rejected (\<open>CroniterBadCronError\<close>, a \<open>ValueError\<close>); seen from Saturday 2024-01-06
  07:00, the daily schedule fires at 08:00 the same day and the Sunday schedule at 09:00
  on 2024-01-07; \<open>0 0 30 2 *\<close> (30 February) is accepted by the constructor and its
  \<open>get_next\<close> raises \<open>CroniterBadDateError\<close>.
\<close>

definition SAT_0700 :: int where "SAT_0700 = 63840121200000000"
definition SAT_0800 :: int where "SAT_0800 = 63840124800000000"
definition SUN_0900 :: int where "SUN_0900 = 63840214800000000"

definition sample_croniter :: croniter_lib where
  "sample_croniter =
     \<lparr>cron_error = (\<lambda>e. if e = ''not a cron'' then Some ValueError else None),
      cron_next = (\<lambda>e t.
        if e = ''0 0 30 2 *'' then Inl (OtherError ''CroniterBadDateError'')
        else if e = ''0 8 * * *'' \<and> t = SAT_0700 then Inr SAT_0800
        else if e = ''0 9 * * 0'' \<and> t = SAT_0700 then Inr SUN_0900
        else Inr (t + 60000000))\<rparr>"

definition empty_cache :: deque where
  "empty_cache = \<lparr>elems = [], maxlen = Some 1000\<rparr>"

text \<open>
  The articles of the examples: an undated one, the same link seen later with a date, a
  new and an old dated one, one whose date cannot be moved to UTC, and two without a
  link. \<open>LAST_RUN\<close> is the stored marker of the source.
\<close>

definition art_undated :: article where
  "art_undated = [''link'' \<mapsto> ''u'', ''pubDate'' \<mapsto> []]"

definition art_redated :: article where
  "art_redated = [''link'' \<mapsto> ''u'', ''pubDate'' \<mapsto> ''2024-01-02 00:00:00'']"

definition art_new :: article where
  "art_new = [''link'' \<mapsto> ''n'', ''pubDate'' \<mapsto> ''2024-01-02 00:00:00'']"

definition art_old :: article where
  "art_old = [''link'' \<mapsto> ''o'', ''pubDate'' \<mapsto> ''2023-12-31 00:00:00'']"

definition art_overflow :: article where
  "art_overflow = [''link'' \<mapsto> ''x'', ''pubDate'' \<mapsto> ''0001-01-01T00:00:00+0500'']"

definition art_nolink_undated :: article where
  "art_nolink_undated = [''link'' \<mapsto> [], ''pubDate'' \<mapsto> []]"

definition art_nolink_overflow :: article where
  "art_nolink_overflow = [''link'' \<mapsto> [], ''pubDate'' \<mapsto> ''0001-01-01T00:00:00+0500'']"

definition LAST_RUN :: "string option" where
  "LAST_RUN = Some ''2024-01-01T00:00:00''"




section \<open>The recency cache\<close>

lemma maxlen_deque_append: "maxlen (deque_append q x) = maxlen q"
  by (simp add: deque_append_def Let_def split: option.splits)

lemma maxlen_append_if_new: "maxlen (append_if_new q x) = maxlen q"
  by (simp add: append_if_new_def maxlen_deque_append)

lemma maxlen_foldl_append_if_new: "maxlen (foldl append_if_new q xs) = maxlen q"
  by (induction xs arbitrary: q) (simp_all add: maxlen_append_if_new)

lemma length_deque_append:
  "maxlen q = Some m \<Longrightarrow> length (elems q) \<le> m \<Longrightarrow> length (elems (deque_append q x)) \<le> m"
  by (simp add: deque_append_def Let_def)

lemma length_append_if_new:
  "maxlen q = Some m \<Longrightarrow> length (elems q) \<le> m \<Longrightarrow> length (elems (append_if_new q x)) \<le> m"
  by (simp add: append_if_new_def length_deque_append)

lemma length_foldl_append_if_new:
  "maxlen q = Some m \<Longrightarrow> length (elems q) \<le> m \<Longrightarrow>
   length (elems (foldl append_if_new q xs)) \<le> m"
  by (induction xs arbitrary: q) (simp_all add: length_append_if_new maxlen_append_if_new)

lemma elems_deque_append_fifo:
  assumes "maxlen q = Some m" and "elems q = drop (length ys - m) ys"
  shows "elems (deque_append q x) = drop (length (ys @ [x]) - m) (ys @ [x])"
proof (cases "length ys < m")
  case True
  then show ?thesis using assms by (simp add: deque_append_def Let_def)
next
  case False
  then have le: "m \<le> length ys" by simp
  show ?thesis
  proof (cases "m = 0")
    case True
    then show ?thesis using assms by (simp add: deque_append_def Let_def)
  next
    case False
    with le have ne: "drop (length ys - m) ys \<noteq> []" by simp
    have "tl (drop (length ys - m) ys @ [x]) = tl (drop (length ys - m) ys) @ [x]"
      using ne by simp
    also have "\<dots> = drop (Suc (length ys - m)) ys @ [x]"
      by (simp add: drop_Suc tl_drop)
    also have "\<dots> = drop (length (ys @ [x]) - m) (ys @ [x])"
      using le False by (simp add: Suc_diff_le)
    finally have tl_eq: "tl (drop (length ys - m) ys @ [x]) = drop (length (ys @ [x]) - m) (ys @ [x])" .
    have len: "length (elems q @ [x]) = Suc m" using assms le by simp
    have "elems (deque_append q x) = tl (elems q @ [x])"
      using assms(1) len by (simp add: deque_append_def Let_def)
    then show ?thesis using tl_eq assms(2) by simp
  qed
qed

lemma append_if_new_empty: "append_if_new q [] = q"
  by (simp add: append_if_new_def)

lemma append_if_new_fresh:
  "x \<noteq> [] \<Longrightarrow> x \<notin> set (elems q) \<Longrightarrow> append_if_new q x = deque_append q x"
  by (simp add: append_if_new_def)

lemma elems_foldl_append_if_new_fifo:
  assumes "maxlen q = Some m" and "elems q = []" and "distinct ids"
  shows "elems (foldl append_if_new q ids) =
         drop (length (filter (\<lambda>u. u \<noteq> []) ids) - m) (filter (\<lambda>u. u \<noteq> []) ids)"
  using assms(3)
proof (induction ids rule: rev_induct)
  case Nil
  then show ?case using assms by simp
next
  case (snoc x xs)
  let ?q = "foldl append_if_new q xs"
  let ?ys = "filter (\<lambda>u. u \<noteq> []) xs"
  from snoc have IH: "elems ?q = drop (length ?ys - m) ?ys" and nx: "x \<notin> set xs" by simp_all
  have m: "maxlen ?q = Some m" by (simp add: maxlen_foldl_append_if_new assms)
  show ?case
  proof (cases "x = []")
    case True
    then show ?thesis using IH by (simp add: append_if_new_empty)
  next
    case False
    have "x \<notin> set (elems ?q)" using nx IH by (auto dest: in_set_dropD)
    then have "elems (append_if_new ?q x) = elems (deque_append ?q x)"
      using False by (simp add: append_if_new_fresh)
    also have "\<dots> = drop (length (?ys @ [x]) - m) (?ys @ [x])"
      by (rule elems_deque_append_fifo [OF m IH])
    finally show ?thesis using False by simp
  qed
qed


lemma deque_new_Some:
  "deque_new (Some C) = Inr q0 \<Longrightarrow> 0 \<le> C \<and> elems q0 = [] \<and> maxlen q0 = Some (nat C)"
  by (auto simp: deque_new_def split: if_splits)

lemma should_include_no_last_run:
  "fst (should_include_article L q a None) = Inr True"
  by (simp add: should_include_article_def Let_def split: option.splits)

lemma filter_single_no_last_run:
  assumes "dict_get a ''link'' [] \<notin> set (elems q)"
  shows "fst (filter_articles_by_timestamp L q [a] None) = [a]"
proof -
  obtain r q' where r: "should_include_article L q a None = (r, q')"
    by (cases "should_include_article L q a None")
  with should_include_no_last_run [of L q a] have "r = Inr True" by simp
  with r assms show ?thesis
    by (simp add: filter_articles_by_timestamp_def filter_step_def parse_iso_timestamp_def Let_def)
qed

text \<open>
  Claim C4. On a cache created with capacity \<open>C\<close>, after any sequence of record
  operations the size is at most \<open>C\<close>. When the identifiers are distinct, the cache
  holds the last \<open>C\<close> of the identifiers that were inserted (the non-empty ones), in
  insertion order; so once \<open>C + 1\<close> distinct identifiers have been inserted exactly the
  first one is gone, and an article carrying it is included again.
\<close>

theorem recency_cache_bounded_fifo:
  assumes "deque_new (Some C) = Inr q0"
  shows "length (elems (foldl append_if_new q0 ids)) \<le> nat C \<and>
         (distinct ids \<longrightarrow>
            elems (foldl append_if_new q0 ids) =
            drop (length (filter (\<lambda>u. u \<noteq> []) ids) - nat C) (filter (\<lambda>u. u \<noteq> []) ids)) \<and>
         (distinct ids \<and> length (filter (\<lambda>u. u \<noteq> []) ids) = Suc (nat C) \<longrightarrow>
            elems (foldl append_if_new q0 ids) = tl (filter (\<lambda>u. u \<noteq> []) ids) \<and>
            hd (filter (\<lambda>u. u \<noteq> []) ids) \<notin> set (elems (foldl append_if_new q0 ids)) \<and>
            (\<forall>L a. dict_get a ''link'' [] = hd (filter (\<lambda>u. u \<noteq> []) ids) \<longrightarrow>
               fst (filter_articles_by_timestamp L (foldl append_if_new q0 ids) [a] None) = [a]))"
proof -
  let ?q = "foldl append_if_new q0 ids"
  let ?ys = "filter (\<lambda>u. u \<noteq> []) ids"
  from deque_new_Some [OF assms]
  have e: "elems q0 = []" and m: "maxlen q0 = Some (nat C)" by simp_all
  have size: "length (elems ?q) \<le> nat C"
    by (rule length_foldl_append_if_new [OF m]) (simp add: e)
  have fifo: "elems ?q = drop (length ?ys - nat C) ?ys" if "distinct ids"
    by (rule elems_foldl_append_if_new_fifo [OF m e that])
  have evict: "elems ?q = tl ?ys \<and> hd ?ys \<notin> set (elems ?q) \<and>
      (\<forall>L a. dict_get a ''link'' [] = hd ?ys \<longrightarrow>
          fst (filter_articles_by_timestamp L ?q [a] None) = [a])"
    if d: "distinct ids" and n: "length ?ys = Suc (nat C)"
  proof -
    from n obtain y zs where ys: "?ys = y # zs" by (cases ?ys) simp_all
    have "distinct ?ys" using d by simp
    with ys have fresh: "y \<notin> set zs" by simp
    have el: "elems ?q = zs" using fifo [OF d] n ys by simp
    then have "hd ?ys \<notin> set (elems ?q)" using fresh ys by simp
    then show ?thesis using el ys by (simp add: filter_single_no_last_run)
  qed
  show ?thesis using size fifo evict by blast
qed

theorem recency_cache_bounded_fifo_witness:
  "deque_new (Some 2) = Inr \<lparr>elems = [], maxlen = Some 2\<rparr> \<and>
   distinct [''a'', ''b'', ''c''] \<and>
   length (filter (\<lambda>u. u \<noteq> []) [''a'', ''b'', ''c'']) = Suc (nat 2) \<and>
   elems (foldl append_if_new \<lparr>elems = [], maxlen = Some 2\<rparr> [''a'', ''b'', ''c'']) = [''b'', ''c''] \<and>
   length (elems (foldl append_if_new \<lparr>elems = [], maxlen = Some 2\<rparr> [''a'', ''b'', ''c''])) \<le> nat 2"
proof -
  have h: "deque_new (Some 2) = Inr \<lparr>elems = [], maxlen = Some 2\<rparr>"
    by (simp add: deque_new_def PY_SSIZE_T_MAX_def)
  have d: "distinct [''a'', ''b'', ''c'']" by simp
  have n: "length (filter (\<lambda>u. u \<noteq> []) [''a'', ''b'', ''c'']) = Suc (nat 2)" by simp
  from recency_cache_bounded_fifo [OF h, of "[''a'', ''b'', ''c'']"] d n
  have "elems (foldl append_if_new \<lparr>elems = [], maxlen = Some 2\<rparr> [''a'', ''b'', ''c'']) =
          tl (filter (\<lambda>u. u \<noteq> []) [''a'', ''b'', ''c''])"
    and "length (elems (foldl append_if_new \<lparr>elems = [], maxlen = Some 2\<rparr> [''a'', ''b'', ''c''])) \<le> nat 2"
    by blast+
  then show ?thesis using h d n by simp
qed

section \<open>The freshness filter\<close>


lemma filter_snoc:
  "filter_articles_by_timestamp L q (xs @ [a]) ts =
   filter_step L (parse_iso_timestamp L ts) (filter_articles_by_timestamp L q xs ts) a"
  by (simp add: filter_articles_by_timestamp_def)

lemma filter_append:
  "filter_articles_by_timestamp L q (xs @ ys) ts =
   foldl (filter_step L (parse_iso_timestamp L ts)) (filter_articles_by_timestamp L q xs ts) ys"
  by (simp add: filter_articles_by_timestamp_def)

lemma filter_step_hit:
  "dict_get a ''link'' [] \<noteq> [] \<Longrightarrow> dict_get a ''link'' [] \<in> set (elems q) \<Longrightarrow>
   filter_step L lr (acc, q) a = (acc, q)"
  by (simp add: filter_step_def Let_def)

lemma filter_step_miss:
  "dict_get a ''link'' [] = [] \<or> dict_get a ''link'' [] \<notin> set (elems q) \<Longrightarrow>
   filter_step L lr (acc, q) a =
     (case should_include_article L q a lr of
        (Inr True, q') \<Rightarrow> (acc @ [a], q')
      | (Inr False, q') \<Rightarrow> (acc, q')
      | (Inl e, q') \<Rightarrow> (acc @ [a], append_if_new q' (dict_get a ''link'' [])))"
  by (auto simp: filter_step_def Let_def)

lemma should_include_undated:
  "parse_date L (Some (dict_get a ''pubDate'' [])) = None \<Longrightarrow>
   should_include_article L q a lr = (Inr True, append_if_new q (dict_get a ''link'' []))"
  by (cases lr) (simp_all add: should_include_article_def Let_def)

lemma should_include_first_run:
  "parse_date L (Some (dict_get a ''pubDate'' [])) = Some d \<Longrightarrow>
   should_include_article L q a None = (Inr True, q)"
  by (simp add: should_include_article_def Let_def)

lemma should_include_dated:
  "parse_date L (Some (dict_get a ''pubDate'' [])) = Some d \<Longrightarrow>
   should_include_article L q a (Some lr) =
     (case normalize_datetime_to_utc_naive d of
        Inl e \<Rightarrow> (Inl e, q)
      | Inr nd \<Rightarrow> (datetime_gt nd (replace_tzinfo lr None), q))"
  by (simp add: should_include_article_def Let_def)

lemma normalize_naive:
  "normalize_datetime_to_utc_naive d = Inr nd \<Longrightarrow> tzinfo nd = None"
  by (auto simp: normalize_datetime_to_utc_naive_def replace_tzinfo_def
      split: option.splits sum.splits)

lemma normalize_utc_wall:
  "tzinfo d = Some 0 \<Longrightarrow> normalize_datetime_to_utc_naive d = Inr nd \<Longrightarrow> wall nd = wall d"
  by (auto simp: normalize_datetime_to_utc_naive_def astimezone_utc_def replace_tzinfo_def Let_def
      split: sum.splits if_splits)

lemma parse_iso_timestamp_utc:
  "parse_iso_timestamp L ts = Some lr \<Longrightarrow> tzinfo lr = Some 0"
  by (auto simp: parse_iso_timestamp_def replace_tzinfo_def split: option.splits if_splits)

lemma datetime_gt_naive:
  "tzinfo a = None \<Longrightarrow> datetime_gt a (replace_tzinfo b None) = Inr (wall b < wall a)"
  by (simp add: datetime_gt_def replace_tzinfo_def)

lemma should_include_raise_keeps_cache:
  "should_include_article L q a lr = (Inl e, q') \<Longrightarrow> q' = q"
  by (auto simp: should_include_article_def Let_def split: option.splits sum.splits)

lemma in_deque_append:
  assumes "maxlen q \<noteq> Some 0"
  shows "x \<in> set (elems (deque_append q x))"
proof (cases "maxlen q")
  case None
  then show ?thesis by (simp add: deque_append_def Let_def)
next
  case (Some m)
  with assms have m: "0 < m" by simp
  show ?thesis
  proof (cases "elems q")
    case Nil
    with Some m show ?thesis by (simp add: deque_append_def Let_def)
  next
    case (Cons y ys)
    with Some show ?thesis by (simp add: deque_append_def Let_def)
  qed
qed

lemma in_append_if_new:
  "u \<noteq> [] \<Longrightarrow> maxlen q \<noteq> Some 0 \<Longrightarrow> u \<in> set (elems (append_if_new q u))"
  by (simp add: append_if_new_def in_deque_append)

lemma filter_step_extends:
  "set (fst st) \<subseteq> set (fst (filter_step L lr st a))"
  by (cases st) (auto simp: filter_step_def Let_def split: prod.splits sum.splits bool.splits)

lemma foldl_filter_step_extends:
  "set (fst st) \<subseteq> set (fst (foldl (filter_step L lr) st ys))"
proof (induction ys arbitrary: st)
  case Nil
  show ?case by simp
next
  case (Cons y ys)
  have "set (fst st) \<subseteq> set (fst (filter_step L lr st y))" by (rule filter_step_extends)
  also have "\<dots> \<subseteq> set (fst (foldl (filter_step L lr) (filter_step L lr st y) ys))"
    by (rule Cons.IH)
  finally show ?case by simp
qed

text \<open>
  Claim C1, as amended. Let the article's date parse and be normalisable to UTC-naive
  (the conversion to UTC stays within the range of \<open>datetime\<close>), let \<open>last_run\<close> be
  known, and let the article reach the date check, that is, its link is empty or not in
  the recency cache when it is evaluated. Then the filter includes the article exactly
  when its normalised timestamp is strictly greater than the normalised \<open>last_run\<close>; in
  both cases the cache stays as it was.
\<close>

theorem dated_article_included_iff_newer:
  assumes lr: "parse_iso_timestamp L ts = Some lr"
    and nlr: "normalize_datetime_to_utc_naive lr = Inr nlr"
    and d: "parse_date L (Some (dict_get a ''pubDate'' [])) = Some d"
    and nd: "normalize_datetime_to_utc_naive d = Inr nd"
    and pre: "filter_articles_by_timestamp L q xs ts = (acc, q1)"
    and miss: "dict_get a ''link'' [] = [] \<or> dict_get a ''link'' [] \<notin> set (elems q1)"
  shows "filter_articles_by_timestamp L q (xs @ [a]) ts =
           (if wall nlr < wall nd then acc @ [a] else acc, q1)"
proof -
  have w: "wall nlr = wall lr"
    by (rule normalize_utc_wall [OF parse_iso_timestamp_utc [OF lr] nlr])
  have "should_include_article L q1 a (Some lr) = (Inr (wall lr < wall nd), q1)"
    using should_include_dated [OF d, of q1 lr] nd datetime_gt_naive [OF normalize_naive [OF nd]]
    by simp
  then show ?thesis
    using filter_step_miss [OF miss, of L "Some lr" acc] w
    by (simp add: filter_snoc lr pre)
qed

text \<open>
  Claim C2, as amended. Let the article have no parseable date and a non-empty link, and
  let the cache not have capacity zero. If the link is not in the cache, the filter
  includes the article and appends the link to the cache; if it is in the cache, the
  filter drops the article and leaves the cache as it was. Either way the link is in the
  cache afterwards.
\<close>

theorem undated_article_included_once:
  assumes u: "dict_get a ''link'' [] = u" and ne: "u \<noteq> []"
    and undated: "parse_date L (Some (dict_get a ''pubDate'' [])) = None"
    and pre: "filter_articles_by_timestamp L q xs ts = (acc, q1)"
    and cap: "maxlen q1 \<noteq> Some 0"
  shows "filter_articles_by_timestamp L q (xs @ [a]) ts =
           (if u \<in> set (elems q1) then (acc, q1) else (acc @ [a], deque_append q1 u)) \<and>
         u \<in> set (elems (snd (filter_articles_by_timestamp L q (xs @ [a]) ts)))"
proof (cases "u \<in> set (elems q1)")
  case True
  then show ?thesis using filter_step_hit [of a q1 L _ acc] u ne
    by (simp add: filter_snoc pre)
next
  case False
  then have miss: "dict_get a ''link'' [] = [] \<or> dict_get a ''link'' [] \<notin> set (elems q1)"
    using u by simp
  have "append_if_new q1 u = deque_append q1 u"
    using False ne by (simp add: append_if_new_def)
  then show ?thesis
    using filter_step_miss [OF miss, of L _ acc] should_include_undated [OF undated, of q1] u False
      in_deque_append [OF cap, of u]
    by (simp add: filter_snoc pre)
qed

text \<open>
  Claim C3, as amended. Let the article's date parse, and let its evaluation raise no
  error: \<open>last_run\<close> is absent, or the date can be normalised to UTC. Then filtering
  the article leaves the recency cache unchanged, whether the article is dropped by the
  cache check, excluded as old, or included.
\<close>

theorem dated_article_leaves_cache:
  assumes d: "parse_date L (Some (dict_get a ''pubDate'' [])) = Some d"
    and ok: "parse_iso_timestamp L ts = None \<or> (\<exists>nd. normalize_datetime_to_utc_naive d = Inr nd)"
  shows "snd (filter_articles_by_timestamp L q (xs @ [a]) ts) =
         snd (filter_articles_by_timestamp L q xs ts)"
proof -
  obtain acc q1 where pre: "filter_articles_by_timestamp L q xs ts = (acc, q1)"
    by (cases "filter_articles_by_timestamp L q xs ts")
  have "\<exists>b. should_include_article L q1 a (parse_iso_timestamp L ts) = (Inr b, q1)"
  proof (cases "parse_iso_timestamp L ts")
    case None
    then show ?thesis using should_include_first_run [OF d, of q1] by auto
  next
    case (Some lr)
    with ok obtain nd where nd: "normalize_datetime_to_utc_naive d = Inr nd" by auto
    show ?thesis
      using should_include_dated [OF d, of q1 lr] nd Some
        datetime_gt_naive [OF normalize_naive [OF nd]]
      by simp
  qed
  then obtain b where b: "should_include_article L q1 a (parse_iso_timestamp L ts) = (Inr b, q1)" ..
  have "snd (filter_step L (parse_iso_timestamp L ts) (acc, q1) a) = q1"
    using b by (cases b) (simp_all add: filter_step_def Let_def)
  then show ?thesis by (simp add: filter_snoc pre)
qed

text \<open>
  Claim C5, as amended. The filter is a total function of the batch and \<open>last_run\<close>:
  every exception of the per-article evaluation is a value that the loop handles. When the
  evaluation of an article raises, the article is appended to the result, its link is
  recorded by the same statement as for an undated article (so a non-empty link is in
  the cache afterwards unless the capacity is zero), and the rest of the batch is
  processed from that state with the article kept in the result.
\<close>

theorem evaluation_error_includes_article:
  assumes pre: "filter_articles_by_timestamp L q xs ts = (acc, q1)"
    and miss: "dict_get a ''link'' [] = [] \<or> dict_get a ''link'' [] \<notin> set (elems q1)"
    and raises: "fst (should_include_article L q1 a (parse_iso_timestamp L ts)) = Inl e"
  shows "filter_articles_by_timestamp L q (xs @ [a]) ts =
           (acc @ [a], append_if_new q1 (dict_get a ''link'' [])) \<and>
         (dict_get a ''link'' [] \<noteq> [] \<and> maxlen q1 \<noteq> Some 0 \<longrightarrow>
            dict_get a ''link'' [] \<in>
              set (elems (snd (filter_articles_by_timestamp L q (xs @ [a]) ts)))) \<and>
         filter_articles_by_timestamp L q (xs @ a # ys) ts =
           foldl (filter_step L (parse_iso_timestamp L ts))
             (acc @ [a], append_if_new q1 (dict_get a ''link'' [])) ys \<and>
         a \<in> set (fst (filter_articles_by_timestamp L q (xs @ a # ys) ts))"
proof -
  let ?lr = "parse_iso_timestamp L ts"
  let ?u = "dict_get a ''link'' []"
  obtain q' where r: "should_include_article L q1 a ?lr = (Inl e, q')"
    using raises by (cases "should_include_article L q1 a ?lr") simp
  have q': "q' = q1" by (rule should_include_raise_keeps_cache [OF r])
  have one: "filter_articles_by_timestamp L q (xs @ [a]) ts = (acc @ [a], append_if_new q1 ?u)"
    using filter_step_miss [OF miss, of L ?lr acc] r q' by (simp add: filter_snoc pre)
  have cached: "?u \<in> set (elems (snd (filter_articles_by_timestamp L q (xs @ [a]) ts)))"
    if "?u \<noteq> []" and "maxlen q1 \<noteq> Some 0"
    using one in_append_if_new [OF that] by simp
  have "filter_articles_by_timestamp L q ((xs @ [a]) @ ys) ts =
        foldl (filter_step L ?lr) (acc @ [a], append_if_new q1 ?u) ys"
    using filter_append [of L q "xs @ [a]" ys ts] by (simp only: one)
  then have rest: "filter_articles_by_timestamp L q (xs @ a # ys) ts =
        foldl (filter_step L ?lr) (acc @ [a], append_if_new q1 ?u) ys" by simp
  have "a \<in> set (fst (foldl (filter_step L ?lr) (acc @ [a], append_if_new q1 ?u) ys))"
    using foldl_filter_step_extends [of "(acc @ [a], append_if_new q1 ?u)" L ?lr ys] by auto
  then show ?thesis using one cached rest by simp
qed

lemma filter_step_nolink_cache:
  assumes "dict_get a ''link'' [] = []"
  shows "snd (filter_step L lr (acc, q) a) = q"
proof -
  have "snd (should_include_article L q a lr) = q"
    using assms
    by (auto simp: should_include_article_def Let_def append_if_new_empty
        split: option.splits sum.splits)
  then show ?thesis using assms
    by (cases "should_include_article L q a lr")
       (auto simp: filter_step_def Let_def append_if_new_empty split: sum.splits bool.splits)
qed

lemma fst_should_include_cache_free:
  "fst (should_include_article L q a lr) = fst (should_include_article L q' a lr)"
  by (auto simp: should_include_article_def Let_def split: option.splits sum.splits)

text \<open>
  Claim C9. For an article whose link is empty, filtering it never changes the cache, the
  decision on it does not depend on the cache, and if it has no parseable date it is
  appended to the result, so it is in the output of every batch that contains it.
\<close>

theorem empty_link_bypasses_cache:
  assumes nolink: "dict_get a ''link'' [] = []"
  shows "snd (filter_articles_by_timestamp L q (xs @ [a]) ts) =
           snd (filter_articles_by_timestamp L q xs ts) \<and>
         fst (filter_step L lr (acc, q1) a) = fst (filter_step L lr (acc, q2) a) \<and>
         (parse_date L (Some (dict_get a ''pubDate'' [])) = None \<longrightarrow>
            fst (filter_articles_by_timestamp L q (xs @ [a]) ts) =
              fst (filter_articles_by_timestamp L q xs ts) @ [a] \<and>
            a \<in> set (fst (filter_articles_by_timestamp L q (xs @ a # ys) ts)))"
proof -
  obtain acc0 q0 where pre: "filter_articles_by_timestamp L q xs ts = (acc0, q0)"
    by (cases "filter_articles_by_timestamp L q xs ts")
  have frame: "snd (filter_articles_by_timestamp L q (xs @ [a]) ts) =
               snd (filter_articles_by_timestamp L q xs ts)"
    using filter_step_nolink_cache [OF nolink] by (simp add: filter_snoc pre)
  have indep: "fst (filter_step L lr (acc, q1) a) = fst (filter_step L lr (acc, q2) a)"
  proof -
    have m1: "dict_get a ''link'' [] = [] \<or> dict_get a ''link'' [] \<notin> set (elems q1)"
      and m2: "dict_get a ''link'' [] = [] \<or> dict_get a ''link'' [] \<notin> set (elems q2)"
      using nolink by simp_all
    show ?thesis
      using fst_should_include_cache_free [of L q1 a lr q2]
      by (cases "should_include_article L q1 a lr"; cases "should_include_article L q2 a lr")
         (auto simp: filter_step_miss [OF m1] filter_step_miss [OF m2] split: sum.splits bool.splits)
  qed
  have incl: "fst (filter_articles_by_timestamp L q (xs @ [a]) ts) =
                fst (filter_articles_by_timestamp L q xs ts) @ [a] \<and>
              a \<in> set (fst (filter_articles_by_timestamp L q (xs @ a # ys) ts))"
    if undated: "parse_date L (Some (dict_get a ''pubDate'' [])) = None"
  proof -
    have m: "dict_get a ''link'' [] = [] \<or> dict_get a ''link'' [] \<notin> set (elems q0)"
      using nolink by simp
    have one: "filter_articles_by_timestamp L q (xs @ [a]) ts = (acc0 @ [a], q0)"
      using filter_step_miss [OF m, of L _ acc0] should_include_undated [OF undated, of q0] nolink
      by (simp add: filter_snoc pre append_if_new_empty)
    have "filter_articles_by_timestamp L q ((xs @ [a]) @ ys) ts =
          foldl (filter_step L (parse_iso_timestamp L ts)) (acc0 @ [a], q0) ys"
      using filter_append [of L q "xs @ [a]" ys ts] by (simp only: one)
    moreover have "a \<in> set (fst (foldl (filter_step L (parse_iso_timestamp L ts)) (acc0 @ [a], q0) ys))"
      using foldl_filter_step_extends [of "(acc0 @ [a], q0)" L "parse_iso_timestamp L ts" ys] by auto
    ultimately show ?thesis using one pre by simp
  qed
  show ?thesis using frame indep incl by blast
qed


lemmas sample_defs =
  sample_stdlib_def empty_cache_def LAST_RUN_def art_undated_def art_redated_def art_new_def
  art_old_def art_overflow_def art_nolink_undated_def art_nolink_overflow_def

lemmas eval_defs =
  filter_articles_by_timestamp_def filter_step_def should_include_article_def
  parse_iso_timestamp_def parse_date_def parse_date_string_def COMMON_DATE_FORMATS_def
  ascii_strip_def ascii_isspace_def replace_Z_def normalize_datetime_to_utc_naive_def astimezone_utc_def
  MAX_WALL_def datetime_gt_def replace_tzinfo_def dict_get_def append_if_new_def
  deque_append_def Let_def

theorem dated_article_included_iff_newer_witness:
  "parse_iso_timestamp sample_stdlib LAST_RUN =
     Some \<lparr>wall = 63839664000000000, tzinfo = Some 0\<rparr> \<and>
   parse_date sample_stdlib (Some (dict_get art_new ''pubDate'' [])) =
     Some \<lparr>wall = 63839750400000000, tzinfo = None\<rparr> \<and>
   filter_articles_by_timestamp sample_stdlib empty_cache [] LAST_RUN = ([], empty_cache) \<and>
   filter_articles_by_timestamp sample_stdlib empty_cache ([] @ [art_new]) LAST_RUN =
     ([art_new], empty_cache)"
proof -
  have lr: "parse_iso_timestamp sample_stdlib LAST_RUN =
      Some \<lparr>wall = 63839664000000000, tzinfo = Some 0\<rparr>"
    by (simp add: sample_defs eval_defs)
  have nlr: "normalize_datetime_to_utc_naive \<lparr>wall = 63839664000000000, tzinfo = Some 0\<rparr> =
      Inr \<lparr>wall = 63839664000000000, tzinfo = None\<rparr>"
    by (simp add: eval_defs)
  have d: "parse_date sample_stdlib (Some (dict_get art_new ''pubDate'' [])) =
      Some \<lparr>wall = 63839750400000000, tzinfo = None\<rparr>"
    by (simp add: sample_defs eval_defs)
  have nd: "normalize_datetime_to_utc_naive \<lparr>wall = 63839750400000000, tzinfo = None\<rparr> =
      Inr \<lparr>wall = 63839750400000000, tzinfo = None\<rparr>"
    by (simp add: eval_defs)
  have pre: "filter_articles_by_timestamp sample_stdlib empty_cache [] LAST_RUN = ([], empty_cache)"
    by (simp add: filter_articles_by_timestamp_def)
  have miss: "dict_get art_new ''link'' [] = [] \<or> dict_get art_new ''link'' [] \<notin> set (elems empty_cache)"
    by (simp add: sample_defs)
  from dated_article_included_iff_newer [OF lr nlr d nd pre miss]
  show ?thesis using lr d pre by simp
qed

theorem dated_article_included_iff_newer_counterexample:
  "parse_iso_timestamp sample_stdlib LAST_RUN =
     Some \<lparr>wall = 63839664000000000, tzinfo = Some 0\<rparr> \<and>
   normalize_datetime_to_utc_naive \<lparr>wall = 63839664000000000, tzinfo = Some 0\<rparr> =
     Inr \<lparr>wall = 63839664000000000, tzinfo = None\<rparr> \<and>
   parse_date sample_stdlib (Some (dict_get art_redated ''pubDate'' [])) =
     Some \<lparr>wall = 63839750400000000, tzinfo = None\<rparr> \<and>
   normalize_datetime_to_utc_naive \<lparr>wall = 63839750400000000, tzinfo = None\<rparr> =
     Inr \<lparr>wall = 63839750400000000, tzinfo = None\<rparr> \<and>
   (63839664000000000 :: int) < 63839750400000000 \<and>
   filter_articles_by_timestamp sample_stdlib empty_cache [art_undated] None =
     ([art_undated], \<lparr>elems = [''u''], maxlen = Some 1000\<rparr>) \<and>
   filter_articles_by_timestamp sample_stdlib \<lparr>elems = [''u''], maxlen = Some 1000\<rparr>
     [art_redated] LAST_RUN = ([], \<lparr>elems = [''u''], maxlen = Some 1000\<rparr>) \<and>
   parse_date sample_stdlib (Some (dict_get art_overflow ''pubDate'' [])) =
     Some \<lparr>wall = 0, tzinfo = Some 18000000000\<rparr> \<and>
   normalize_datetime_to_utc_naive \<lparr>wall = 0, tzinfo = Some 18000000000\<rparr> =
     Inl OverflowError \<and>
   (0 - 18000000000 :: int) < 63839664000000000 \<and>
   filter_articles_by_timestamp sample_stdlib empty_cache [art_overflow] LAST_RUN =
     ([art_overflow], \<lparr>elems = [''x''], maxlen = Some 1000\<rparr>)"
  by (simp add: sample_defs eval_defs)

theorem undated_article_included_once_witness:
  "dict_get art_undated ''link'' [] = ''u'' \<and>
   parse_date sample_stdlib (Some (dict_get art_undated ''pubDate'' [])) = None \<and>
   filter_articles_by_timestamp sample_stdlib empty_cache ([] @ [art_undated]) LAST_RUN =
     ([art_undated], \<lparr>elems = [''u''], maxlen = Some 1000\<rparr>) \<and>
   filter_articles_by_timestamp sample_stdlib \<lparr>elems = [''u''], maxlen = Some 1000\<rparr>
     ([] @ [art_undated]) LAST_RUN = ([], \<lparr>elems = [''u''], maxlen = Some 1000\<rparr>)"
proof -
  let ?c1 = "\<lparr>elems = [''u''], maxlen = Some 1000\<rparr>"
  have u: "dict_get art_undated ''link'' [] = ''u''" by (simp add: sample_defs dict_get_def)
  have ne: "''u'' \<noteq> []" by simp
  have undated: "parse_date sample_stdlib (Some (dict_get art_undated ''pubDate'' [])) = None"
    by (simp add: sample_defs dict_get_def parse_date_def)
  have pre0: "filter_articles_by_timestamp sample_stdlib empty_cache [] LAST_RUN = ([], empty_cache)"
    by (simp add: filter_articles_by_timestamp_def)
  have pre1: "filter_articles_by_timestamp sample_stdlib ?c1 [] LAST_RUN = ([], ?c1)"
    by (simp add: filter_articles_by_timestamp_def)
  have cap0: "maxlen empty_cache \<noteq> Some 0" by (simp add: empty_cache_def)
  have cap1: "maxlen ?c1 \<noteq> Some 0" by simp
  from undated_article_included_once [OF u ne undated pre0 cap0]
    undated_article_included_once [OF u ne undated pre1 cap1]
  show ?thesis using u undated by (simp add: empty_cache_def deque_append_def Let_def)
qed

theorem undated_article_included_once_counterexample:
  "dict_get art_nolink_undated ''link'' [] = [] \<and>
   parse_date sample_stdlib (Some (dict_get art_nolink_undated ''pubDate'' [])) = None \<and>
   filter_articles_by_timestamp sample_stdlib empty_cache [art_nolink_undated] LAST_RUN =
     ([art_nolink_undated], empty_cache) \<and>
   dict_get art_nolink_undated ''link'' [] \<notin> set (elems empty_cache) \<and>
   filter_articles_by_timestamp sample_stdlib empty_cache [art_nolink_undated, art_nolink_undated]
     LAST_RUN = ([art_nolink_undated, art_nolink_undated], empty_cache)"
  by (simp add: sample_defs eval_defs)

theorem dated_article_leaves_cache_witness:
  "parse_date sample_stdlib (Some (dict_get art_old ''pubDate'' [])) =
     Some \<lparr>wall = 63839577600000000, tzinfo = None\<rparr> \<and>
   normalize_datetime_to_utc_naive \<lparr>wall = 63839577600000000, tzinfo = None\<rparr> =
     Inr \<lparr>wall = 63839577600000000, tzinfo = None\<rparr> \<and>
   snd (filter_articles_by_timestamp sample_stdlib empty_cache ([] @ [art_old]) LAST_RUN) =
     empty_cache"
proof -
  have d: "parse_date sample_stdlib (Some (dict_get art_old ''pubDate'' [])) =
      Some \<lparr>wall = 63839577600000000, tzinfo = None\<rparr>"
    by (simp add: sample_defs eval_defs)
  have nd: "normalize_datetime_to_utc_naive \<lparr>wall = 63839577600000000, tzinfo = None\<rparr> =
      Inr \<lparr>wall = 63839577600000000, tzinfo = None\<rparr>"
    by (simp add: eval_defs)
  then have ok: "parse_iso_timestamp sample_stdlib LAST_RUN = None \<or>
      (\<exists>nd. normalize_datetime_to_utc_naive \<lparr>wall = 63839577600000000, tzinfo = None\<rparr> = Inr nd)"
    by blast
  from dated_article_leaves_cache [OF d ok, of empty_cache "[]"]
  show ?thesis using d nd by (simp add: filter_articles_by_timestamp_def)
qed

theorem dated_article_leaves_cache_counterexample:
  "parse_date sample_stdlib (Some (dict_get art_overflow ''pubDate'' [])) =
     Some \<lparr>wall = 0, tzinfo = Some 18000000000\<rparr> \<and>
   filter_articles_by_timestamp sample_stdlib empty_cache [art_overflow] LAST_RUN =
     ([art_overflow], \<lparr>elems = [''x''], maxlen = Some 1000\<rparr>) \<and>
   elems empty_cache = []"
  by (simp add: sample_defs eval_defs)

theorem evaluation_error_includes_article_witness:
  "fst (should_include_article sample_stdlib empty_cache art_overflow
          (parse_iso_timestamp sample_stdlib LAST_RUN)) = Inl OverflowError \<and>
   filter_articles_by_timestamp sample_stdlib empty_cache ([] @ [art_overflow]) LAST_RUN =
     ([art_overflow], \<lparr>elems = [''x''], maxlen = Some 1000\<rparr>) \<and>
   art_overflow \<in> set (fst (filter_articles_by_timestamp sample_stdlib empty_cache
                              ([] @ art_overflow # [art_old]) LAST_RUN))"
proof -
  have pre: "filter_articles_by_timestamp sample_stdlib empty_cache [] LAST_RUN = ([], empty_cache)"
    by (simp add: filter_articles_by_timestamp_def)
  have miss: "dict_get art_overflow ''link'' [] = [] \<or>
      dict_get art_overflow ''link'' [] \<notin> set (elems empty_cache)"
    by (simp add: sample_defs)
  have raises: "fst (should_include_article sample_stdlib empty_cache art_overflow
          (parse_iso_timestamp sample_stdlib LAST_RUN)) = Inl OverflowError"
    by (simp add: sample_defs eval_defs)
  have u: "append_if_new empty_cache (dict_get art_overflow ''link'' []) =
      \<lparr>elems = [''x''], maxlen = Some 1000\<rparr>"
    by (simp add: sample_defs eval_defs)
  from evaluation_error_includes_article [OF pre miss raises, of "[art_old]"]
  have one: "filter_articles_by_timestamp sample_stdlib empty_cache ([] @ [art_overflow]) LAST_RUN =
      ([] @ [art_overflow], append_if_new empty_cache (dict_get art_overflow ''link'' []))"
    and kept: "art_overflow \<in> set (fst (filter_articles_by_timestamp sample_stdlib empty_cache
                              ([] @ art_overflow # [art_old]) LAST_RUN))"
    by blast+
  from one have "filter_articles_by_timestamp sample_stdlib empty_cache ([] @ [art_overflow]) LAST_RUN =
      ([art_overflow], \<lparr>elems = [''x''], maxlen = Some 1000\<rparr>)"
    by (simp only: u append_Nil)
  with raises kept show ?thesis by blast
qed

theorem evaluation_error_includes_article_counterexample:
  "fst (should_include_article sample_stdlib empty_cache art_nolink_overflow
          (parse_iso_timestamp sample_stdlib LAST_RUN)) = Inl OverflowError \<and>
   filter_articles_by_timestamp sample_stdlib empty_cache [art_nolink_overflow] LAST_RUN =
     ([art_nolink_overflow], empty_cache) \<and>
   dict_get art_nolink_overflow ''link'' [] \<notin> set (elems empty_cache)"
  by (simp add: sample_defs eval_defs)

theorem empty_link_bypasses_cache_witness:
  "dict_get art_nolink_undated ''link'' [] = [] \<and>
   parse_date sample_stdlib (Some (dict_get art_nolink_undated ''pubDate'' [])) = None \<and>
   snd (filter_articles_by_timestamp sample_stdlib empty_cache
          ([art_nolink_undated] @ [art_nolink_undated]) LAST_RUN) =
     snd (filter_articles_by_timestamp sample_stdlib empty_cache [art_nolink_undated] LAST_RUN) \<and>
   fst (filter_articles_by_timestamp sample_stdlib empty_cache
          ([art_nolink_undated] @ [art_nolink_undated]) LAST_RUN) =
     fst (filter_articles_by_timestamp sample_stdlib empty_cache [art_nolink_undated] LAST_RUN) @
       [art_nolink_undated]"
proof -
  have nolink: "dict_get art_nolink_undated ''link'' [] = []"
    by (simp add: sample_defs dict_get_def)
  have undated: "parse_date sample_stdlib (Some (dict_get art_nolink_undated ''pubDate'' [])) = None"
    by (simp add: sample_defs dict_get_def parse_date_def)
  from empty_link_bypasses_cache [OF nolink, of sample_stdlib empty_cache "[art_nolink_undated]"
      LAST_RUN]
  show ?thesis using nolink undated by blast
qed

section \<open>The dispatcher\<close>

lemma fst_next_times:
  "\<forall>c\<in>set cs. cron_next C (expr c) t = Inr (nx (expr c)) \<Longrightarrow>
   fst (next_times C t cs) = Inr (map (\<lambda>c. nx (expr c)) cs)"
proof (induction cs)
  case Nil
  show ?case by simp
next
  case (Cons c cs)
  then have c: "cron_next C (expr c) t = Inr (nx (expr c))"
    and IH: "fst (next_times C t cs) = Inr (map (\<lambda>c. nx (expr c)) cs)"
    by simp_all
  obtain r cs' where r: "next_times C t cs = (r, cs')" by (cases "next_times C t cs")
  with IH have "r = Inr (map (\<lambda>c. nx (expr c)) cs)" by simp
  with r c show ?case by (simp add: get_next_def set_current_def)
qed

lemma expr_next_times:
  "map expr (snd (next_times C t cs)) = map expr cs"
proof (induction cs)
  case Nil
  show ?case by simp
next
  case (Cons c cs)
  obtain r cs' where r: "next_times C t cs = (r, cs')" by (cases "next_times C t cs")
  with Cons.IH have e: "map expr cs' = map expr cs" by simp
  show ?case
  proof (cases "cron_next C (expr c) t")
    case (Inl e)
    then show ?thesis by (simp add: get_next_def set_current_def)
  next
    case (Inr x)
    with r e show ?thesis by (cases r) (simp_all add: get_next_def set_current_def)
  qed
qed

lemma py_min_Min: "xs \<noteq> [] \<Longrightarrow> py_min xs = Inr (Min (set xs))"
proof (cases xs)
  case Nil
  assume "xs \<noteq> []"
  with Nil show ?thesis by simp
next
  case (Cons y ys)
  then show ?thesis using Min.set_eq_fold [of y ys] by simp
qed

lemma next_run_time_value:
  assumes "\<forall>c\<in>set (crons d). cron_next C (expr c) t = Inr (nx (expr c))"
  shows "fst (get_next_run_time C d t) = py_min (map nx (map expr (crons d)))"
proof -
  obtain r cs where r: "next_times C t (crons d) = (r, cs)" by (cases "next_times C t (crons d)")
  with fst_next_times [OF assms] have "r = Inr (map (\<lambda>c. nx (expr c)) (crons d))" by simp
  with r show ?thesis by (simp add: get_next_run_time_def comp_def)
qed

lemma next_run_time_keeps_exprs:
  "map expr (crons (snd (get_next_run_time C d t))) = map expr (crons d)"
proof -
  obtain r cs where r: "next_times C t (crons d) = (r, cs)" by (cases "next_times C t (crons d)")
  with expr_next_times [of C t "crons d"] have "map expr cs = map expr (crons d)" by simp
  with r show ?thesis by (cases r) (simp_all add: get_next_run_time_def)
qed

text \<open>
  Claim C6, as amended. For a non-empty set of schedules each of which has a next fire
  time from \<open>now\<close> (\<open>nx\<close> gives it, by expression), the next run time is the minimum of
  these times: the current time an iterator kept from an earlier call plays no part, and
  the call leaves the expressions as they are. With the schedules \<open>0 8 * * *\<close> and
  \<open>0 9 * * 0\<close>, whenever the daily one fires first (as on a Saturday at 07:00), its time
  is returned.
\<close>

theorem next_run_time_is_earliest:
  assumes ne: "crons d \<noteq> []"
    and fires: "\<forall>c\<in>set (crons d). cron_next C (expr c) now = Inr (nx (expr c))"
  shows "fst (get_next_run_time C d now) =
           Inr (Min ((\<lambda>c. nx (expr c)) ` set (crons d))) \<and>
         map expr (crons (snd (get_next_run_time C d now))) = map expr (crons d) \<and>
         (map expr (crons d) = [''0 8 * * *'', ''0 9 * * 0''] \<and>
          nx ''0 8 * * *'' < nx ''0 9 * * 0'' \<longrightarrow>
            fst (get_next_run_time C d now) = Inr (nx ''0 8 * * *''))"
proof -
  have "map nx (map expr (crons d)) \<noteq> []" using ne by simp
  from py_min_Min [OF this]
  have a: "fst (get_next_run_time C d now) =
      Inr (Min ((\<lambda>c. nx (expr c)) ` set (crons d)))"
    by (simp add: next_run_time_value [OF fires] image_image)
  have b: "map expr (crons (snd (get_next_run_time C d now))) = map expr (crons d)"
    by (rule next_run_time_keeps_exprs)
  have e: "fst (get_next_run_time C d now) = Inr (nx ''0 8 * * *'')"
    if "map expr (crons d) = [''0 8 * * *'', ''0 9 * * 0'']"
      and "nx ''0 8 * * *'' < nx ''0 9 * * 0''"
    using that by (simp add: next_run_time_value [OF fires])
  show ?thesis
  proof (intro conjI impI)
    show "fst (get_next_run_time C d now) =
        Inr (Min ((\<lambda>c. nx (expr c)) ` set (crons d)))" by (rule a)
    show "map expr (crons (snd (get_next_run_time C d now))) = map expr (crons d)" by (rule b)
    assume "map expr (crons d) = [''0 8 * * *'', ''0 9 * * 0''] \<and>
        nx ''0 8 * * *'' < nx ''0 9 * * 0''"
    then show "fst (get_next_run_time C d now) = Inr (nx ''0 8 * * *'')"
      by (intro e) (erule conjunct1, erule conjunct2)
  qed
qed

theorem next_run_time_is_earliest_witness:
  "NewsletterDaemon_init sample_croniter (\<lambda>k. 0) [''0 8 * * *'', ''0 9 * * 0''] =
     Inr \<lparr>frequencies = [''0 8 * * *'', ''0 9 * * 0''],
          crons = [\<lparr>expr = ''0 8 * * *'', cur = 0\<rparr>, \<lparr>expr = ''0 9 * * 0'', cur = 0\<rparr>]\<rparr> \<and>
   cron_next sample_croniter ''0 8 * * *'' SAT_0700 = Inr SAT_0800 \<and>
   cron_next sample_croniter ''0 9 * * 0'' SAT_0700 = Inr SUN_0900 \<and>
   SAT_0800 < SUN_0900 \<and>
   fst (get_next_run_time sample_croniter
          \<lparr>frequencies = [''0 8 * * *'', ''0 9 * * 0''],
           crons = [\<lparr>expr = ''0 8 * * *'', cur = 0\<rparr>, \<lparr>expr = ''0 9 * * 0'', cur = 0\<rparr>]\<rparr>
          SAT_0700) = Inr SAT_0800"
proof -
  let ?d = "\<lparr>frequencies = [''0 8 * * *'', ''0 9 * * 0''],
           crons = [\<lparr>expr = ''0 8 * * *'', cur = 0\<rparr>, \<lparr>expr = ''0 9 * * 0'', cur = 0\<rparr>]\<rparr>"
  let ?nx = "\<lambda>e. if e = ''0 8 * * *'' then SAT_0800 else SUN_0900"
  have i: "NewsletterDaemon_init sample_croniter (\<lambda>k. 0) [''0 8 * * *'', ''0 9 * * 0''] = Inr ?d"
    by (simp add: NewsletterDaemon_init_def croniter_new_def sample_croniter_def)
  have ne: "crons ?d \<noteq> []" by simp
  have ex: "map expr (crons ?d) = [''0 8 * * *'', ''0 9 * * 0'']" by simp
  have n8: "cron_next sample_croniter ''0 8 * * *'' SAT_0700 = Inr SAT_0800"
    by (simp add: sample_croniter_def)
  have n9: "cron_next sample_croniter ''0 9 * * 0'' SAT_0700 = Inr SUN_0900"
    by (simp add: sample_croniter_def)
  have fires: "\<forall>c\<in>set (crons ?d). cron_next sample_croniter (expr c) SAT_0700 = Inr (?nx (expr c))"
    using n8 n9 by simp
  have lt: "SAT_0800 < SUN_0900" by (simp add: SAT_0800_def SUN_0900_def)
  then have lt': "?nx ''0 8 * * *'' < ?nx ''0 9 * * 0''" by simp
  note t = next_run_time_is_earliest [OF ne fires]
  from t [THEN conjunct2, THEN conjunct2, THEN mp, OF conjI [OF ex lt']]
  have "fst (get_next_run_time sample_croniter ?d SAT_0700) = Inr SAT_0800" by simp
  with i n8 n9 lt show ?thesis by (intro conjI)
qed

theorem next_run_time_is_earliest_counterexample:
  "NewsletterDaemon_init sample_croniter (\<lambda>k. 0) [''0 0 30 2 *''] =
     Inr \<lparr>frequencies = [''0 0 30 2 *''], crons = [\<lparr>expr = ''0 0 30 2 *'', cur = 0\<rparr>]\<rparr> \<and>
   validate_frequencies sample_croniter 0 [''0 0 30 2 *''] = Inr () \<and>
   crons \<lparr>frequencies = [''0 0 30 2 *''], crons = [\<lparr>expr = ''0 0 30 2 *'', cur = 0\<rparr>]\<rparr> \<noteq> [] \<and>
   fst (get_next_run_time sample_croniter
          \<lparr>frequencies = [''0 0 30 2 *''], crons = [\<lparr>expr = ''0 0 30 2 *'', cur = 0\<rparr>]\<rparr>
          SAT_0700) = Inl (OtherError ''CroniterBadDateError'')"
  by (simp add: NewsletterDaemon_init_def validate_frequencies_def croniter_new_def
      sample_croniter_def get_next_run_time_def get_next_def set_current_def)

lemma init_crons_invalid:
  "f \<in> set fs \<Longrightarrow> cron_error C f \<noteq> None \<Longrightarrow>
   \<exists>e g. g \<in> set fs \<and> cron_error C g = Some e \<and> init_crons C now fs cs = Inl e"
proof (induction fs arbitrary: cs)
  case Nil
  then show ?case by simp
next
  case (Cons g gs)
  show ?case
  proof (cases "cron_error C g")
    case (Some e)
    then show ?thesis by (auto simp: croniter_new_def)
  next
    case None
    with Cons.prems have "f \<in> set gs" by auto
    from Cons.IH [OF this Cons.prems(2), of "cs @ [\<lparr>expr = g, cur = now (length cs)\<rparr>]"]
    show ?thesis using None by (auto simp: croniter_new_def)
  qed
qed

lemma init_crons_complete:
  "init_crons C now fs cs = Inr cs' \<Longrightarrow>
   map expr cs' = map expr cs @ fs \<and> (\<forall>f\<in>set fs. cron_error C f = None)"
proof (induction fs arbitrary: cs)
  case Nil
  then show ?case by simp
next
  case (Cons g gs)
  show ?case
  proof (cases "cron_error C g")
    case (Some e)
    with Cons.prems show ?thesis by (simp add: croniter_new_def)
  next
    case None
    with Cons.prems
    have "init_crons C now gs (cs @ [\<lparr>expr = g, cur = now (length cs)\<rparr>]) = Inr cs'"
      by (simp add: croniter_new_def)
    from Cons.IH [OF this] None show ?thesis by simp
  qed
qed

lemma validate_each_invalid:
  "f \<in> set fs \<Longrightarrow> cron_error C f \<noteq> None \<Longrightarrow> \<exists>e. validate_each C t fs = Inl e"
proof (induction fs)
  case Nil
  then show ?case by simp
next
  case (Cons g gs)
  then show ?case
    by (cases "cron_error C g") (auto simp: croniter_new_def)
qed

text \<open>
  Claim C7. If some configured frequency is rejected by \<open>croniter\<close>, constructing the
  daemon raises the exception of a rejected frequency and yields no daemon, and the
  configuration check raises as well; a daemon that is constructed holds exactly one
  iterator per configured frequency, all of them valid. In particular the frequencies
  \<open>["not a cron"]\<close> raise.
\<close>

theorem daemon_construction_fails_fast:
  shows "((\<exists>f\<in>set fs. cron_error C f \<noteq> None) \<longrightarrow>
            (\<exists>e g. g \<in> set fs \<and> cron_error C g = Some e \<and>
                    NewsletterDaemon_init C now fs = Inl e) \<and>
            (\<exists>e. validate_frequencies C t fs = Inl e)) \<and>
         (\<forall>d. NewsletterDaemon_init C now fs = Inr d \<longrightarrow>
            map expr (crons d) = fs \<and> (\<forall>f\<in>set fs. cron_error C f = None)) \<and>
         (cron_error C ''not a cron'' = Some e0 \<longrightarrow>
            NewsletterDaemon_init C now [''not a cron''] = Inl e0)"
proof -
  have a: "(\<exists>e g. g \<in> set fs \<and> cron_error C g = Some e \<and> NewsletterDaemon_init C now fs = Inl e) \<and>
           (\<exists>e. validate_frequencies C t fs = Inl e)"
    if "\<exists>f\<in>set fs. cron_error C f \<noteq> None"
  proof -
    from that obtain f where f: "f \<in> set fs" "cron_error C f \<noteq> None" by blast
    from init_crons_invalid [OF f, of now "[]"]
    have "\<exists>e g. g \<in> set fs \<and> cron_error C g = Some e \<and> NewsletterDaemon_init C now fs = Inl e"
      by (auto simp: NewsletterDaemon_init_def)
    moreover have "\<exists>e. validate_frequencies C t fs = Inl e"
      using validate_each_invalid [OF f, of t] by (simp add: validate_frequencies_def)
    ultimately show ?thesis ..
  qed
  have b: "map expr (crons d) = fs \<and> (\<forall>f\<in>set fs. cron_error C f = None)"
    if "NewsletterDaemon_init C now fs = Inr d" for d
  proof -
    from that obtain cs where cs: "init_crons C now fs [] = Inr cs" and d: "crons d = cs"
      by (auto simp: NewsletterDaemon_init_def split: sum.splits)
    from init_crons_complete [OF cs] d show ?thesis by simp
  qed
  have c: "NewsletterDaemon_init C now [''not a cron''] = Inl e0"
    if "cron_error C ''not a cron'' = Some e0"
    using that by (simp add: NewsletterDaemon_init_def croniter_new_def)
  show ?thesis using a b c by blast
qed

theorem daemon_construction_fails_fast_witness:
  "(\<exists>f\<in>set [''0 8 * * *'', ''not a cron'']. cron_error sample_croniter f \<noteq> None) \<and>
   NewsletterDaemon_init sample_croniter (\<lambda>k. 0) [''0 8 * * *'', ''not a cron''] = Inl ValueError \<and>
   cron_error sample_croniter ''not a cron'' = Some ValueError \<and>
   NewsletterDaemon_init sample_croniter (\<lambda>k. 0) [''not a cron''] = Inl ValueError \<and>
   (\<exists>e. validate_frequencies sample_croniter 0 [''0 8 * * *'', ''not a cron''] = Inl e)"
proof -
  have h: "\<exists>f\<in>set [''0 8 * * *'', ''not a cron'']. cron_error sample_croniter f \<noteq> None"
    by (simp add: sample_croniter_def)
  have e0: "cron_error sample_croniter ''not a cron'' = Some ValueError"
    by (simp add: sample_croniter_def)
  have two: "NewsletterDaemon_init sample_croniter (\<lambda>k. 0) [''0 8 * * *'', ''not a cron''] = Inl ValueError"
    by (simp add: NewsletterDaemon_init_def croniter_new_def sample_croniter_def)
  from daemon_construction_fails_fast [of "[''0 8 * * *'', ''not a cron'']" sample_croniter "\<lambda>k. 0" 0 ValueError]
    daemon_construction_fails_fast [of "[''not a cron'']" sample_croniter "\<lambda>k. 0" 0 ValueError] h e0
  have "\<exists>e. validate_frequencies sample_croniter 0 [''0 8 * * *'', ''not a cron''] = Inl e"
    and "NewsletterDaemon_init sample_croniter (\<lambda>k. 0) [''not a cron''] = Inl ValueError"
    by blast+
  then show ?thesis using h e0 two by blast
qed

section \<open>Constructing the processor\<close>

text \<open>
  Claim C8, as amended. Constructing the processor with a negative capacity raises: with
  a working extractor it is the exception of \<open>deque(maxlen=...)\<close>, a \<open>ValueError\<close>, or
  an \<open>OverflowError\<close> when the capacity is below the range of \<open>Py_ssize_t\<close>.
\<close>

theorem negative_capacity_rejected:
  assumes "C < 0"
  shows "(\<exists>e. ContentProcessor_init hiku (Some C) = Inl e) \<and>
         ContentProcessor_init (Inr h) (Some C) =
           Inl (if C < - PY_SSIZE_T_MAX - 1 then OverflowError else ValueError)"
  using assms
  by (cases hiku) (simp_all add: ContentProcessor_init_def deque_new_def PY_SSIZE_T_MAX_def)

theorem negative_capacity_rejected_witness:
  "(-1 :: int) < 0 \<and> ContentProcessor_init (Inr ''hiku'') (Some (-1)) = Inl ValueError"
proof -
  have h: "(-1 :: int) < 0" by simp
  from negative_capacity_rejected [OF h, of "Inr ''hiku''" "''hiku''"] show ?thesis
    by (simp add: PY_SSIZE_T_MAX_def)
qed

theorem zero_capacity_accepted_counterexample:
  "(0 :: int) \<le> 0 \<and>
   ContentProcessor_init (Inr ''hiku'') (Some 0) =
     Inr \<lparr>hiku_extractor = ''hiku'', request_timeout = 10,
          non_dated_processed_urls = \<lparr>elems = [], maxlen = Some 0\<rparr>\<rparr>"
proof -
  have "deque_new (Some 0) = Inr \<lparr>elems = [], maxlen = Some 0\<rparr>"
    by (simp add: deque_new_def PY_SSIZE_T_MAX_def)
  then show ?thesis by (simp add: ContentProcessor_init_def)
qed

section \<open>The per-source cap\<close>














end
